theory Spec2Isabelle
  imports Main
begin

section \<open>Strings\<close>

text \<open>
  Python's \<open>str.lower()\<close>, on the byte characters of HOL strings: the letters A to Z are
  moved to a to z, every other character is kept. The handlers only compare the result
  with lower-case ASCII words (role names and statuses).
\<close>

definition lower_char :: "char \<Rightarrow> char" where
  "lower_char c =
     (let n = (of_char c :: nat)
      in if 65 \<le> n \<and> n \<le> 90 then char_of (n + 32) else c)"

definition lower :: "string \<Rightarrow> string" where
  "lower s = map lower_char s"

section \<open>Data model (app/models.py)\<close>

text \<open>
  HTTP errors raised by the handlers (\<open>HTTPException\<close> with status 404, 403, 409, 400),
  and the \<open>AttributeError\<close> of \<open>current_user.role.name\<close> on a user without a role.
\<close>

datatype error = NotFound | Forbidden | Conflict | BadRequest | AttributeError

text \<open>
  A row of table \<open>user\<close>, with the name of its role (\<open>user.role.name\<close>); \<open>None\<close> when
  the user has no role.
\<close>

record user =
  user_id :: int
  role_name :: "string option"
  service_id :: "int option"

text \<open>A row of table \<open>vehicle_requests\<close>. Times are seconds on some clock.\<close>

record vehicle_request =
  req_id :: int
  purpose :: string
  from_location :: string
  to_location :: string
  roadmap :: "string option"
  departure_time :: int
  return_time :: int
  status :: string
  created_at :: int
  requester_id :: "int option"
  vehicle_id :: "int option"
  driver_id :: "int option"

text \<open>
  A row of table \<open>request_approvals\<close>: the columns that \<open>submit_approval\<close> fills. The
  primary key and \<open>updated_at\<close> are assigned by the database and read by no handler.
\<close>

record request_approval =
  request_id :: int
  approver_id :: "int option"
  approval_step :: int
  approval_status :: string
  comments :: "string option"

text \<open>The tables that the request and approval handlers read and write.\<close>

record database =
  requests :: "vehicle_request list"
  approvals :: "request_approval list"
  users :: "user list"

text \<open>\<open>db.query(VehicleRequest).filter(VehicleRequest.id == request_id).first()\<close>\<close>

definition get_request :: "database \<Rightarrow> int \<Rightarrow> vehicle_request option" where
  "get_request db rid = find (\<lambda>r. req_id r = rid) (requests db)"

text \<open>
  \<open>db.query(RequestApproval).filter(request_id == .., approval_step == ..).first()\<close>
\<close>

definition get_approval :: "database \<Rightarrow> int \<Rightarrow> int \<Rightarrow> request_approval option" where
  "get_approval db rid step =
     find (\<lambda>a. request_id a = rid \<and> approval_step a = step) (approvals db)"

text \<open>The approval rows of one request (\<open>VehicleRequest.approvals\<close>).\<close>

definition approvals_of :: "database \<Rightarrow> int \<Rightarrow> request_approval list" where
  "approvals_of db rid = filter (\<lambda>a. request_id a = rid) (approvals db)"

section \<open>Role gate (app/oauth2.py, require_role)\<close>

definition require_role :: "string list \<Rightarrow> user \<Rightarrow> error + user" where
  "require_role allowed_roles u =
     (let user_role = (case role_name u of Some n \<Rightarrow> lower n | None \<Rightarrow> [])
      in if user_role \<notin> set (map lower allowed_roles) then Inl Forbidden else Inr u)"

section \<open>Approval workflow (app/routers/approval.py)\<close>

text \<open>
  The body of the request: \<open>RequestApprovalUpdate\<close>, with the two fields the handler
  reads (\<open>status\<close> and \<open>comments\<close>).
\<close>

record approval_update =
  decision :: string
  decision_comments :: "string option"

text \<open>Step 2 of \<open>submit_approval\<close>: the approval step of a lower-cased role name.\<close>

definition approval_step_of :: "string \<Rightarrow> int" where
  "approval_step_of user_role =
     (if user_role = ''chef'' then 1
      else if user_role = ''logistic'' then 2
      else if user_role \<in> set [''charoi'', ''admin'', ''superadmin''] then 3
      else 0)"

text \<open>
  Step 5 of \<open>submit_approval\<close>: the status of the request after the decision; the old
  status stays when no branch assigns.
\<close>

definition status_after :: "string \<Rightarrow> string \<Rightarrow> int \<Rightarrow> string" where
  "status_after old d step =
     (if d = ''denied'' then ''denied''
      else if d = ''approved'' then
        (if step = 1 then ''approved_by_chef''
         else if step = 2 then ''approved_by_logistic''
         else if step = 3 then ''fully_approved''
         else old)
      else old)"

definition set_status :: "int \<Rightarrow> string \<Rightarrow> vehicle_request list \<Rightarrow> vehicle_request list" where
  "set_status rid s rs = map (\<lambda>r. if req_id r = rid then r\<lparr>status := s\<rparr> else r) rs"

text \<open>
  The function \<open>submit_approval\<close>, on the user that its dependency has let through. It
  returns the response and the database after the call: every \<open>raise\<close> comes before the
  first write to the session, so it returns the database as it was; the insert and the
  status assignment are flushed by the one \<open>db.commit()\<close>.
\<close>

definition submit_approval ::
  "database \<Rightarrow> int \<Rightarrow> approval_update \<Rightarrow> user
     \<Rightarrow> (error + vehicle_request option) \<times> database" where
  "submit_approval db rid approval_data current_user =
     (case get_request db rid of
        None \<Rightarrow> (Inl NotFound, db)
      | Some db_request \<Rightarrow>
          (case role_name current_user of
             None \<Rightarrow> (Inl AttributeError, db)
           | Some rn \<Rightarrow>
               (let step = approval_step_of (lower rn)
                in if step = 0 then (Inl Forbidden, db)
                   else
                     (case get_approval db rid step of
                        Some existing_approval \<Rightarrow> (Inl Conflict, db)
                      | None \<Rightarrow>
                          (let new_approval =
                                 \<lparr>request_id = rid,
                                  approver_id = Some (user_id current_user),
                                  approval_step = step,
                                  approval_status = lower (decision approval_data),
                                  comments = decision_comments approval_data\<rparr>;
                               s = status_after (status db_request)
                                     (lower (decision approval_data)) step;
                               db' = db\<lparr>approvals := approvals db @ [new_approval],
                                        requests := set_status rid s (requests db)\<rparr>
                           in (Inr (get_request db' rid), db'))))))"

text \<open>
  The route \<open>POST /api/v1/approvals/{request_id}\<close>: the dependency
  \<open>require_role(["chef", "logistic", "charoi", "admin", "superadmin"])\<close> runs before the
  function's body.
\<close>

definition approval_roles :: "string list" where
  "approval_roles = [''chef'', ''logistic'', ''charoi'', ''admin'', ''superadmin'']"

definition submit_approval_route ::
  "database \<Rightarrow> int \<Rightarrow> approval_update \<Rightarrow> user
     \<Rightarrow> (error + vehicle_request option) \<times> database" where
  "submit_approval_route db rid approval_data caller =
     (case require_role approval_roles caller of
        Inl e \<Rightarrow> (Inl e, db)
      | Inr current_user \<Rightarrow> submit_approval db rid approval_data current_user)"

section \<open>Creating a request (app/routers/request.py, create_request)\<close>

text \<open>
  The body of the request, \<open>VehicleRequestCreate\<close>: the descriptive columns of the row.
\<close>

record request_create =
  rc_purpose :: string
  rc_from_location :: string
  rc_to_location :: string
  rc_roadmap :: "string option"
  rc_departure_time :: int
  rc_return_time :: int

text \<open>
  The new row gets status \<open>pending\<close> and the caller as requester. Its primary key and
  its \<open>created_at\<close> are assigned by the database (a sequence and \<open>now()\<close>): they are
  parameters here.
\<close>

definition create_request ::
  "database \<Rightarrow> request_create \<Rightarrow> user \<Rightarrow> int \<Rightarrow> int \<Rightarrow> vehicle_request \<times> database" where
  "create_request db request_data current_user new_id now =
     (let new_request =
            \<lparr>req_id = new_id,
             purpose = rc_purpose request_data,
             from_location = rc_from_location request_data,
             to_location = rc_to_location request_data,
             roadmap = rc_roadmap request_data,
             departure_time = rc_departure_time request_data,
             return_time = rc_return_time request_data,
             status = ''pending'',
             created_at = now,
             requester_id = Some (user_id current_user),
             vehicle_id = None,
             driver_id = None\<rparr>
      in (new_request, db\<lparr>requests := requests db @ [new_request]\<rparr>))"

section \<open>Listing requests (app/routers/request.py, get_all_requests)\<close>

text \<open>
  \<open>query.order_by(created_at.desc()).limit(limit).offset(skip).all()\<close>: the rows newest
  first, then the page that starts at row \<open>skip\<close> and has at most \<open>limit\<close> rows. SQL
  leaves the order of rows with equal \<open>created_at\<close> open; the sort used here keeps them
  in table order. The database rejects a negative limit or offset, so both are naturals.
\<close>

definition newest_first :: "vehicle_request list \<Rightarrow> vehicle_request list" where
  "newest_first rs = sort_key (\<lambda>r. - created_at r) rs"

definition page :: "nat \<Rightarrow> nat \<Rightarrow> vehicle_request list \<Rightarrow> vehicle_request list" where
  "page limit skip rs = take limit (drop skip (newest_first rs))"

text \<open>
  The chef's filter: the inner join of the request with the user row of its requester,
  restricted to the service of the chef.
\<close>

definition requester_in_service :: "database \<Rightarrow> int \<Rightarrow> vehicle_request \<Rightarrow> bool" where
  "requester_in_service db sid r =
     (\<exists>u \<in> set (users db). requester_id r = Some (user_id u) \<and> service_id u = Some sid)"

text \<open>The function \<open>get_all_requests\<close>, on the user that its dependency has let through.\<close>

definition get_all_requests ::
  "database \<Rightarrow> user \<Rightarrow> nat \<Rightarrow> nat \<Rightarrow> vehicle_request list" where
  "get_all_requests db current_user limit skip =
     (let user_role = (case role_name current_user of Some n \<Rightarrow> lower n | None \<Rightarrow> [])
      in if user_role = ''chef'' then
           (case service_id current_user of
              None \<Rightarrow> []
            | Some user_service_id \<Rightarrow>
                page limit skip (filter (requester_in_service db user_service_id) (requests db)))
         else if user_role = ''logistic'' then
           page limit skip (filter (\<lambda>r. status r = ''approved_by_chef'') (requests db))
         else if user_role = ''charoi'' then
           page limit skip (filter (\<lambda>r. status r = ''approved_by_logistic'') (requests db))
         else page limit skip (requests db))"

text \<open>
  The route \<open>GET /api/v1/requests/\<close>, with its dependency
  \<open>require_role(["admin", "superadmin", "logistic", "charoi", "chef"])\<close>. The defaults of
  the query parameters are \<open>limit = 100\<close> and \<open>skip = 0\<close>.
\<close>

definition listing_roles :: "string list" where
  "listing_roles = [''admin'', ''superadmin'', ''logistic'', ''charoi'', ''chef'']"

definition get_all_requests_route ::
  "database \<Rightarrow> user \<Rightarrow> nat \<Rightarrow> nat \<Rightarrow> error + vehicle_request list" where
  "get_all_requests_route db caller limit skip =
     (case require_role listing_roles caller of
        Inl e \<Rightarrow> Inl e
      | Inr current_user \<Rightarrow> Inr (get_all_requests db current_user limit skip))"

section \<open>Deleting a request (app/routers/request.py, delete_request)\<close>

text \<open>
  The route \<open>DELETE /api/v1/requests/{id}\<close>; its dependency admits every authenticated
  user. \<open>request_query.delete()\<close> removes the rows with the given id, and the foreign key
  of \<open>request_approvals.request_id\<close> (\<open>ondelete="CASCADE"\<close>) removes their approval rows.
\<close>

definition delete_request :: "database \<Rightarrow> int \<Rightarrow> user \<Rightarrow> (error + unit) \<times> database" where
  "delete_request db rid current_user =
     (case get_request db rid of
        None \<Rightarrow> (Inl NotFound, db)
      | Some db_request \<Rightarrow>
          (case role_name current_user of
             None \<Rightarrow> (Inl AttributeError, db)
           | Some rn \<Rightarrow>
               (let is_admin = (lower rn \<in> set [''admin'', ''superadmin'']);
                    is_owner = (requester_id db_request = Some (user_id current_user));
                    is_pending = (lower (status db_request) = ''pending'')
                in if is_admin \<or> (is_owner \<and> is_pending) then
                     (Inr (),
                      db\<lparr>requests := filter (\<lambda>r. req_id r \<noteq> rid) (requests db),
                         approvals := filter (\<lambda>a. request_id a \<noteq> rid) (approvals db)\<rparr>)
                   else (Inl Forbidden, db))))"

section \<open>The listing as the specification words it\<close>

text \<open>
  The user row of the requester of a request, and the rows that a caller's role allows:
  all of them for admin and superadmin; for a chef those whose requester belongs to the
  chef's own service, none when the chef has no service; for logistic those with status
  \<open>approved_by_chef\<close>; for charoi those with status \<open>approved_by_logistic\<close>.
\<close>

definition requester_of :: "database \<Rightarrow> vehicle_request \<Rightarrow> user option" where
  "requester_of db r =
     (case requester_id r of
        None \<Rightarrow> None
      | Some uid \<Rightarrow> find (\<lambda>u. user_id u = uid) (users db))"

definition role_allows :: "database \<Rightarrow> user \<Rightarrow> vehicle_request \<Rightarrow> bool" where
  "role_allows db caller r =
     (case role_name caller of
        None \<Rightarrow> False
      | Some rn \<Rightarrow>
          if lower rn = ''admin'' \<or> lower rn = ''superadmin'' then True
          else if lower rn = ''chef'' then
            (case (service_id caller, requester_of db r) of
               (Some sid, Some ru) \<Rightarrow> service_id ru = Some sid
             | _ \<Rightarrow> False)
          else if lower rn = ''logistic'' then status r = ''approved_by_chef''
          else if lower rn = ''charoi'' then status r = ''approved_by_logistic''
          else False)"

definition allowed_rows :: "database \<Rightarrow> user \<Rightarrow> vehicle_request list" where
  "allowed_rows db caller = filter (role_allows db caller) (requests db)"

text \<open>The primary key of table \<open>user\<close>.\<close>

definition user_ids_unique :: "database \<Rightarrow> bool" where
  "user_ids_unique db = distinct (map user_id (users db))"

section \<open>Fuel records (app/routers/fuel.py)\<close>

text \<open>
  Quantity, price and cost are Python floats. Their arithmetic is not modelled: the three
  operations that the handlers apply to them are parameters, \<open>fle0 x\<close> for \<open>x <= 0\<close>,
  \<open>fmul x y\<close> for \<open>x * y\<close> and \<open>fround2 x\<close> for \<open>round(x, 2)\<close>, over any type \<open>'f\<close>
  of numbers.
\<close>

record 'f float_ops =
  fle0 :: "'f \<Rightarrow> bool"
  fmul :: "'f \<Rightarrow> 'f \<Rightarrow> 'f"
  fround2 :: "'f \<Rightarrow> 'f"

text \<open>A row of table \<open>fuel\<close>.\<close>

record 'f fuel =
  fuel_id :: int
  fuel_vehicle_id :: int
  fuel_type_id :: int
  quantity :: 'f
  price_little :: 'f
  cost :: 'f
  fuel_created_at :: int

text \<open>
  The tables that the fuel handlers read and write; of \<open>vehicle\<close> and \<open>fuel_type\<close> only
  the primary keys are read.
\<close>

record 'f fuel_db =
  vehicle_ids :: "int list"
  fuel_type_ids :: "int list"
  fuels :: "'f fuel list"

text \<open>\<open>db.query(Fuel).filter(Fuel.id == fuel_id).first()\<close>\<close>

definition get_fuel :: "'f fuel_db \<Rightarrow> int \<Rightarrow> 'f fuel option" where
  "get_fuel db fid = find (\<lambda>f. fuel_id f = fid) (fuels db)"

text \<open>The fields of \<open>FuelCreatePayload\<close> that \<open>create_new_fuel_record\<close> reads.\<close>

record 'f fuel_create_payload =
  p_vehicle_id :: int
  p_fuel_type_id :: int
  p_quantity :: 'f
  p_price_little :: 'f

text \<open>
  The route \<open>POST /api/v1/fuel/\<close>, open to every authenticated user. The primary key and
  \<open>created_at\<close> of the new row are assigned by the database: they are parameters here.
\<close>

definition create_new_fuel_record ::
  "'f float_ops \<Rightarrow> 'f fuel_db \<Rightarrow> 'f fuel_create_payload \<Rightarrow> int \<Rightarrow> int
     \<Rightarrow> (error + 'f fuel) \<times> 'f fuel_db" where
  "create_new_fuel_record ops db fuel_payload new_id now =
     (if p_vehicle_id fuel_payload \<notin> set (vehicle_ids db) then (Inl NotFound, db)
      else if p_fuel_type_id fuel_payload \<notin> set (fuel_type_ids db) then (Inl NotFound, db)
      else if fle0 ops (p_quantity fuel_payload) then (Inl BadRequest, db)
      else if fle0 ops (p_price_little fuel_payload) then (Inl BadRequest, db)
      else
        (let calculated_cost =
               fround2 ops (fmul ops (p_quantity fuel_payload) (p_price_little fuel_payload));
             db_fuel_record =
               \<lparr>fuel_id = new_id,
                fuel_vehicle_id = p_vehicle_id fuel_payload,
                fuel_type_id = p_fuel_type_id fuel_payload,
                quantity = p_quantity fuel_payload,
                price_little = p_price_little fuel_payload,
                cost = calculated_cost,
                fuel_created_at = now\<rparr>
         in (Inr db_fuel_record, db\<lparr>fuels := fuels db @ [db_fuel_record]\<rparr>)))"

text \<open>
  \<open>fuel_payload.model_dump(exclude_unset=True)\<close> of a \<open>FuelUpdatePayload\<close>: a field is
  \<open>Some v\<close> when the key is in \<open>update_data\<close> with value \<open>v\<close>, and \<open>None\<close> when the key
  is absent. Whether the schema has a \<open>cost\<close> field is not visible in the source; the key
  is allowed here, so that no result rests on its absence.
\<close>

record 'f fuel_update_payload =
  u_vehicle_id :: "int option"
  u_fuel_type_id :: "int option"
  u_quantity :: "'f option"
  u_price_little :: "'f option"
  u_cost :: "'f option"

text \<open>The function \<open>update_existing_fuel_record\<close>, on the user that its dependency has let through.\<close>

definition update_existing_fuel_record ::
  "'f float_ops \<Rightarrow> 'f fuel_db \<Rightarrow> int \<Rightarrow> 'f fuel_update_payload
     \<Rightarrow> (error + 'f fuel) \<times> 'f fuel_db" where
  "update_existing_fuel_record ops db fid update_data =
     (case get_fuel db fid of
        None \<Rightarrow> (Inl NotFound, db)
      | Some db_fuel_record \<Rightarrow>
          if (case u_vehicle_id update_data of
                Some v \<Rightarrow> v \<noteq> fuel_vehicle_id db_fuel_record \<and> v \<notin> set (vehicle_ids db)
              | None \<Rightarrow> False)
          then (Inl NotFound, db)
          else if (case u_fuel_type_id update_data of
                Some t \<Rightarrow> t \<noteq> fuel_type_id db_fuel_record \<and> t \<notin> set (fuel_type_ids db)
              | None \<Rightarrow> False)
          then (Inl NotFound, db)
          else if (case u_quantity update_data of Some q \<Rightarrow> fle0 ops q | None \<Rightarrow> False)
          then (Inl BadRequest, db)
          else if (case u_price_little update_data of Some p \<Rightarrow> fle0 ops p | None \<Rightarrow> False)
          then (Inl BadRequest, db)
          else
            (let effective_quantity =
                   (case u_quantity update_data of
                      Some q \<Rightarrow> q | None \<Rightarrow> quantity db_fuel_record);
                 effective_price_little =
                   (case u_price_little update_data of
                      Some p \<Rightarrow> p | None \<Rightarrow> price_little db_fuel_record);
                 recalculate_cost_flag =
                   (u_quantity update_data \<noteq> None \<or> u_price_little update_data \<noteq> None);
                 new_cost =
                   (if recalculate_cost_flag
                    then Some (fround2 ops (fmul ops effective_quantity effective_price_little))
                    else u_cost update_data);
                 updated =
                   db_fuel_record
                     \<lparr>fuel_vehicle_id :=
                        (case u_vehicle_id update_data of
                           Some v \<Rightarrow> v | None \<Rightarrow> fuel_vehicle_id db_fuel_record),
                      fuel_type_id :=
                        (case u_fuel_type_id update_data of
                           Some t \<Rightarrow> t | None \<Rightarrow> fuel_type_id db_fuel_record),
                      quantity := effective_quantity,
                      price_little := effective_price_little,
                      cost := (case new_cost of Some c \<Rightarrow> c | None \<Rightarrow> cost db_fuel_record)\<rparr>
             in (Inr updated,
                 db\<lparr>fuels := map (\<lambda>f. if fuel_id f = fid then updated else f) (fuels db)\<rparr>)))"

text \<open>
  \<open>require_role_for_api\<close> of app/oauth2.py, and the route \<open>PUT /api/v1/fuel/{fuel_id}\<close>
  with its dependency \<open>require_role_for_api(["admin", "superadmin"])\<close>.
\<close>

definition require_role_for_api :: "string list \<Rightarrow> user \<Rightarrow> error + user" where
  "require_role_for_api allowed_roles u =
     (let user_role = (case role_name u of Some n \<Rightarrow> lower n | None \<Rightarrow> [])
      in if user_role \<notin> set (map lower allowed_roles) then Inl Forbidden else Inr u)"

definition update_existing_fuel_record_route ::
  "'f float_ops \<Rightarrow> 'f fuel_db \<Rightarrow> int \<Rightarrow> 'f fuel_update_payload \<Rightarrow> user
     \<Rightarrow> (error + 'f fuel) \<times> 'f fuel_db" where
  "update_existing_fuel_record_route ops db fid update_data caller =
     (case require_role_for_api [''admin'', ''superadmin''] caller of
        Inl e \<Rightarrow> (Inl e, db)
      | Inr current_user \<Rightarrow> update_existing_fuel_record ops db fid update_data)"

section \<open>Notions used in the statements\<close>

text \<open>The approval step of a caller: 0 when the role is not one of the approving roles.\<close>

definition caller_step :: "user \<Rightarrow> int" where
  "caller_step u = (case role_name u of Some rn \<Rightarrow> approval_step_of (lower rn) | None \<Rightarrow> 0)"

text \<open>At most one approval row for each pair of request and step.\<close>

definition step_unique :: "database \<Rightarrow> bool" where
  "step_unique db = distinct (map (\<lambda>a. (request_id a, approval_step a)) (approvals db))"

text \<open>The stored status of a request, when the request exists.\<close>

definition status_of :: "database \<Rightarrow> int \<Rightarrow> string option" where
  "status_of db rid = map_option status (get_request db rid)"

text \<open>
  The database after a decision has been recorded for request \<open>rid\<close>, whose status was
  \<open>old\<close>: the new approval row at the end of the table, and the status assigned.
\<close>

definition decided :: "database \<Rightarrow> int \<Rightarrow> string \<Rightarrow> approval_update \<Rightarrow> user \<Rightarrow> database" where
  "decided db rid old d u =
     db\<lparr>approvals := approvals db @
            [\<lparr>request_id = rid, approver_id = Some (user_id u), approval_step = caller_step u,
              approval_status = lower (decision d), comments = decision_comments d\<rparr>],
        requests := set_status rid
            (status_after old (lower (decision d)) (caller_step u)) (requests db)\<rparr>"


text \<open>
  The row that \<open>update_existing_fuel_record\<close> stores: the keys of \<open>update_data\<close>
  assigned to the old row, with the cost recomputed when a quantity or a price is given.
\<close>

definition updated_row :: "'f float_ops \<Rightarrow> 'f fuel \<Rightarrow> 'f fuel_update_payload \<Rightarrow> 'f fuel" where
  "updated_row ops old upd =
     old\<lparr>fuel_vehicle_id := (case u_vehicle_id upd of Some v \<Rightarrow> v | None \<Rightarrow> fuel_vehicle_id old),
         fuel_type_id := (case u_fuel_type_id upd of Some t \<Rightarrow> t | None \<Rightarrow> fuel_type_id old),
         quantity := (case u_quantity upd of Some q \<Rightarrow> q | None \<Rightarrow> quantity old),
         price_little := (case u_price_little upd of Some p \<Rightarrow> p | None \<Rightarrow> price_little old),
         cost :=
           (case (if u_quantity upd \<noteq> None \<or> u_price_little upd \<noteq> None
                  then Some (fround2 ops (fmul ops
                         (case u_quantity upd of Some q \<Rightarrow> q | None \<Rightarrow> quantity old)
                         (case u_price_little upd of Some p \<Rightarrow> p | None \<Rightarrow> price_little old)))
                  else u_cost upd) of
              Some c \<Rightarrow> c | None \<Rightarrow> cost old)\<rparr>"

text \<open>
  The approval rows of one step of one request, and the databases that the handlers of
  this theory produce from empty request and approval tables.
\<close>

definition rows_for :: "database \<Rightarrow> int \<Rightarrow> int \<Rightarrow> request_approval list" where
  "rows_for db rid step =
     filter (\<lambda>a. request_id a = rid \<and> approval_step a = step) (approvals db)"

inductive reachable :: "database \<Rightarrow> bool" where
  start: "reachable \<lparr>requests = [], approvals = [], users = us\<rparr>"
| created: "reachable db \<Longrightarrow> reachable (snd (create_request db request_data u new_id now))"
| submitted: "reachable db \<Longrightarrow> reachable (snd (submit_approval_route db rid d u))"
| deleted: "reachable db \<Longrightarrow> reachable (snd (delete_request db rid u))"

section \<open>Sample data\<close>

definition sample_request :: vehicle_request where
  "sample_request =
     \<lparr>req_id = 7, purpose = ''site visit'', from_location = ''depot'', to_location = ''port'',
      roadmap = None, departure_time = 100, return_time = 200, status = ''pending'',
      created_at = 50, requester_id = Some 4, vehicle_id = None, driver_id = None\<rparr>"

definition sample_db :: database where
  "sample_db = \<lparr>requests = [sample_request], approvals = [], users = []\<rparr>"

definition empty_db :: database where
  "empty_db = \<lparr>requests = [], approvals = [], users = []\<rparr>"

definition chef_user :: user where
  "chef_user = \<lparr>user_id = 1, role_name = Some ''Chef'', service_id = Some 3\<rparr>"

definition logistic_user :: user where
  "logistic_user = \<lparr>user_id = 2, role_name = Some ''logistic'', service_id = Some 5\<rparr>"

definition charoi_user :: user where
  "charoi_user = \<lparr>user_id = 3, role_name = Some ''charoi'', service_id = Some 5\<rparr>"

definition plain_user :: user where
  "plain_user = \<lparr>user_id = 4, role_name = Some ''user'', service_id = Some 3\<rparr>"

definition approve :: approval_update where
  "approve = \<lparr>decision = ''approved'', decision_comments = None\<rparr>"

definition deny :: approval_update where
  "deny = \<lparr>decision = ''Denied'', decision_comments = Some ''no vehicle free''\<rparr>"

definition admin_user :: user where
  "admin_user = \<lparr>user_id = 9, role_name = Some ''ADMIN'', service_id = None\<rparr>"

definition decided_db :: database where
  "decided_db = snd (submit_approval_route sample_db 7 approve charoi_user)"

definition denied_db :: database where
  "denied_db = snd (submit_approval_route sample_db 7 deny chef_user)"

definition sample_create :: request_create where
  "sample_create =
     \<lparr>rc_purpose = ''delivery'', rc_from_location = ''depot'', rc_to_location = ''airport'',
      rc_roadmap = Some ''ring road'', rc_departure_time = 300, rc_return_time = 400\<rparr>"

definition created_db :: database where
  "created_db = snd (create_request empty_db sample_create plain_user 7 50)"

definition newer_request :: vehicle_request where
  "newer_request =
     \<lparr>req_id = 8, purpose = ''audit'', from_location = ''depot'', to_location = ''bank'',
      roadmap = None, departure_time = 500, return_time = 600, status = ''approved_by_chef'',
      created_at = 60, requester_id = Some 2, vehicle_id = None, driver_id = None\<rparr>"

definition listing_db :: database where
  "listing_db =
     \<lparr>requests = [sample_request, newer_request], approvals = [],
      users = [chef_user, logistic_user, plain_user]\<rparr>"

definition approved_db :: database where
  "approved_db = snd (submit_approval_route sample_db 7 approve chef_user)"



text \<open>
  Sample fuel data, with whole numbers for quantities and prices, on which rounding to
  two decimals changes nothing.
\<close>

definition whole_ops :: "int float_ops" where
  "whole_ops = \<lparr>fle0 = (\<lambda>x. x \<le> 0), fmul = (\<lambda>x y. x * y), fround2 = (\<lambda>x. x)\<rparr>"

definition sample_fuel :: "int fuel" where
  "sample_fuel =
     \<lparr>fuel_id = 1, fuel_vehicle_id = 10, fuel_type_id = 2, quantity = 40, price_little = 3,
      cost = 120, fuel_created_at = 70\<rparr>"

definition fuel_sample_db :: "int fuel_db" where
  "fuel_sample_db = \<lparr>vehicle_ids = [10, 11], fuel_type_ids = [2], fuels = [sample_fuel]\<rparr>"

definition fuel_payload :: "int fuel_create_payload" where
  "fuel_payload = \<lparr>p_vehicle_id = 11, p_fuel_type_id = 2, p_quantity = 25, p_price_little = 4\<rparr>"

definition free_fuel_payload :: "int fuel_create_payload" where
  "free_fuel_payload = \<lparr>p_vehicle_id = 11, p_fuel_type_id = 2, p_quantity = 25, p_price_little = 0\<rparr>"

definition quantity_update :: "int fuel_update_payload" where
  "quantity_update =
     \<lparr>u_vehicle_id = None, u_fuel_type_id = None, u_quantity = Some 50, u_price_little = None,
      u_cost = Some 1\<rparr>"

section \<open>Evaluation and basic facts\<close>

lemmas lower_eval = lower_def lower_char_def char_of_def bit_Suc_0_iff bit_iff_odd

lemmas sample_defs = sample_request_def sample_db_def empty_db_def chef_user_def
  logistic_user_def charoi_user_def plain_user_def approve_def deny_def

lemmas route_eval = submit_approval_route_def require_role_def approval_roles_def
  submit_approval_def get_request_def get_approval_def approval_step_of_def status_after_def
  set_status_def Let_def

lemma lower_approval_roles: "map lower approval_roles = approval_roles"
  by (simp add: approval_roles_def lower_eval)

lemma approval_step_of_0: "approval_step_of s = 0 \<longleftrightarrow> s \<notin> set approval_roles"
  by (simp add: approval_step_of_def approval_roles_def)

lemma require_role_approval:
  "require_role approval_roles u = (if caller_step u = 0 then Inl Forbidden else Inr u)"
proof (cases "role_name u")
  case None
  then show ?thesis
    by (simp add: require_role_def lower_approval_roles caller_step_def)
      (simp add: approval_roles_def)
next
  case (Some rn)
  then show ?thesis
    by (simp add: require_role_def lower_approval_roles caller_step_def approval_step_of_0)
qed

lemma route_cases:
  "submit_approval_route db rid d u =
     (if caller_step u = 0 then (Inl Forbidden, db)
      else case get_request db rid of
             None \<Rightarrow> (Inl NotFound, db)
           | Some r \<Rightarrow>
               if get_approval db rid (caller_step u) \<noteq> None then (Inl Conflict, db)
               else (Inr (get_request (decided db rid (status r) d u) rid),
                     decided db rid (status r) d u))"
  by (auto simp: submit_approval_route_def require_role_approval submit_approval_def
        caller_step_def decided_def Let_def split: option.splits)

lemma find_set_status:
  "find (\<lambda>r. req_id r = rid) (set_status rid s rs) =
     map_option (\<lambda>r. r\<lparr>status := s\<rparr>) (find (\<lambda>r. req_id r = rid) rs)"
  by (induction rs) (auto simp: set_status_def)

lemma get_request_decided:
  "get_request (decided db rid old d u) rid =
     map_option (\<lambda>r. r\<lparr>status := status_after old (lower (decision d)) (caller_step u)\<rparr>)
       (get_request db rid)"
  by (simp add: get_request_def decided_def find_set_status)

lemma find_None_iff_all: "find P xs = None \<longleftrightarrow> (\<forall>x\<in>set xs. \<not> P x)"
  by (induction xs) auto

lemma get_approval_None:
  "get_approval db rid step = None \<longleftrightarrow>
     (rid, step) \<notin> set (map (\<lambda>a. (request_id a, approval_step a)) (approvals db))"
  by (auto simp: get_approval_def find_None_iff_all)

lemma step_unique_decided:
  "step_unique db \<Longrightarrow> get_approval db rid (caller_step u) = None
     \<Longrightarrow> step_unique (decided db rid old d u)"
  by (simp add: step_unique_def decided_def get_approval_None)

lemma get_approval_decided_same:
  "get_approval (decided db rid old d u) rid (caller_step u) \<noteq> None"
  by (simp add: get_approval_None decided_def)

lemma get_approval_decided_other:
  "step \<noteq> caller_step u \<Longrightarrow>
     get_approval (decided db rid old d u) rid step = None \<longleftrightarrow> get_approval db rid step = None"
  by (simp add: get_approval_None decided_def)

lemma approvals_of_decided:
  "approvals_of (decided db rid old d u) rid =
     approvals_of db rid @
       [\<lparr>request_id = rid, approver_id = Some (user_id u), approval_step = caller_step u,
         approval_status = lower (decision d), comments = decision_comments d\<rparr>]"
  by (simp add: approvals_of_def decided_def)

lemma approvals_of_Nil_get_approval:
  "approvals_of db rid = [] \<Longrightarrow> get_approval db rid step = None"
  by (auto simp: approvals_of_def get_approval_def find_None_iff_all filter_empty_conv)

lemma route_success:
  assumes "get_request db rid = Some r" and "caller_step u \<noteq> 0"
    and "get_approval db rid (caller_step u) = None"
  shows "submit_approval_route db rid d u =
    (Inr (get_request (decided db rid (status r) d u) rid), decided db rid (status r) d u)"
  using assms by (simp add: route_cases)

lemma status_of_decided:
  "get_request db rid = Some r \<Longrightarrow>
     status_of (decided db rid old d u) rid =
       Some (status_after old (lower (decision d)) (caller_step u))"
  by (simp add: status_of_def get_request_decided)

lemma find_append_fresh:
  "find P xs = None \<Longrightarrow> P x \<Longrightarrow> find P (xs @ [x]) = Some x"
  by (induction xs) (auto split: if_splits)

lemma create_request_fresh:
  assumes "get_request db rid = None"
    and "create_request db request_data owner rid now = (r0, db0)"
  shows "get_request db0 rid = Some r0" and "status r0 = ''pending''"
    and "approvals db0 = approvals db"
  using assms
  by (auto simp: create_request_def get_request_def Let_def find_append_fresh)

lemma conflict_after_success:
  assumes "submit_approval_route db rid d u = (Inr res, db1)"
    and "caller_step u2 = caller_step u"
  shows "submit_approval_route db1 rid d2 u2 = (Inl Conflict, db1)"
proof -
  from assms(1) obtain r where ok: "caller_step u \<noteq> 0" "get_request db rid = Some r"
      "db1 = decided db rid (status r) d u"
    by (auto simp: route_cases split: if_splits option.splits)
  with assms(2) have "caller_step u2 \<noteq> 0" "get_request db1 rid \<noteq> None"
      "get_approval db1 rid (caller_step u2) \<noteq> None"
    by (simp_all add: get_request_decided get_approval_decided_same)
  then show ?thesis
    by (auto simp: route_cases)
qed

lemma route_success_facts:
  assumes "get_request db rid = Some r" and "caller_step u \<noteq> 0"
    and "get_approval db rid (caller_step u) = None"
  obtains res db' r' where "submit_approval_route db rid d u = (Inr res, db')"
    and "get_request db' rid = Some r'"
    and "status r' = status_after (status r) (lower (decision d)) (caller_step u)"
    and "approvals_of db' rid = approvals_of db rid @
       [\<lparr>request_id = rid, approver_id = Some (user_id u), approval_step = caller_step u,
         approval_status = lower (decision d), comments = decision_comments d\<rparr>]"
    and "\<And>step. step \<noteq> caller_step u \<Longrightarrow>
           get_approval db' rid step = None \<longleftrightarrow> get_approval db rid step = None"
proof -
  let ?db' = "decided db rid (status r) d u"
  have "submit_approval_route db rid d u = (Inr (get_request ?db' rid), ?db')"
    using assms by (rule route_success)
  moreover have "get_request ?db' rid =
      Some (r\<lparr>status := status_after (status r) (lower (decision d)) (caller_step u)\<rparr>)"
    using assms(1) by (simp add: get_request_decided)
  ultimately show thesis
    using that [of "get_request ?db' rid" ?db'
        "r\<lparr>status := status_after (status r) (lower (decision d)) (caller_step u)\<rparr>"]
    by (simp add: approvals_of_decided get_approval_decided_other)
qed

text \<open>
  The function's own body looks the request up before it looks at the role; the gate of
  the route runs before both.
\<close>

lemma submit_approval_body_order:
  "submit_approval empty_db 7 approve plain_user = (Inl NotFound, empty_db)"
  by (simp add: route_eval sample_defs)




section \<open>Facts about the listing\<close>

lemmas listing_eval = get_all_requests_route_def get_all_requests_def require_role_def
  listing_roles_def page_def newest_first_def requester_in_service_def

lemma require_role_listing:
  "require_role listing_roles u =
     (case role_name u of
        None \<Rightarrow> Inl Forbidden
      | Some rn \<Rightarrow> if lower rn \<in> set listing_roles then Inr u else Inl Forbidden)"
proof -
  have "map lower listing_roles = listing_roles"
    by (simp add: listing_roles_def lower_eval)
  then show ?thesis
    by (cases "role_name u") (simp_all add: require_role_def, simp add: listing_roles_def)
qed

lemma find_unique_user:
  "distinct (map user_id us) \<Longrightarrow> u \<in> set us \<Longrightarrow> find (\<lambda>v. user_id v = user_id u) us = Some u"
  by (induction us) (auto simp: rev_image_eqI)

lemma find_Some_user:
  "find (\<lambda>v. user_id v = uid) us = Some u \<Longrightarrow> u \<in> set us \<and> user_id u = uid"
  by (induction us) (auto split: if_splits)

lemma requester_in_service_iff:
  assumes "user_ids_unique db"
  shows "requester_in_service db sid r \<longleftrightarrow>
     (\<exists>ru. requester_of db r = Some ru \<and> service_id ru = Some sid)"
proof
  assume "requester_in_service db sid r"
  then obtain u where u: "u \<in> set (users db)" "requester_id r = Some (user_id u)"
      "service_id u = Some sid"
    by (auto simp: requester_in_service_def)
  with assms have "requester_of db r = Some u"
    by (simp add: requester_of_def user_ids_unique_def find_unique_user)
  with u show "\<exists>ru. requester_of db r = Some ru \<and> service_id ru = Some sid"
    by blast
next
  assume "\<exists>ru. requester_of db r = Some ru \<and> service_id ru = Some sid"
  then obtain ru where "requester_of db r = Some ru" "service_id ru = Some sid"
    by blast
  then show "requester_in_service db sid r"
    by (auto simp: requester_of_def requester_in_service_def split: option.splits
        dest: find_Some_user)
qed

lemma role_allows_chef:
  assumes "user_ids_unique db" and "role_name u = Some rn" and "lower rn = ''chef''"
    and "service_id u = Some sid"
  shows "role_allows db u r \<longleftrightarrow> requester_in_service db sid r"
  using assms(2-4)
  by (auto simp: role_allows_def requester_in_service_iff [OF assms(1)] split: option.splits)

lemma get_all_requests_allowed:
  assumes "user_ids_unique db" and "role_name u = Some rn" and "lower rn \<in> set listing_roles"
  shows "get_all_requests db u limit skip = page limit skip (allowed_rows db u)"
proof -
  consider (admin) "lower rn = ''admin'' \<or> lower rn = ''superadmin''"
    | (logistic) "lower rn = ''logistic''" | (charoi) "lower rn = ''charoi''"
    | (chef) "lower rn = ''chef''"
    using assms(3) by (auto simp: listing_roles_def)
  then show ?thesis
  proof cases
    case admin
    with assms(2) have "role_allows db u = (\<lambda>r. True)"
      by (auto simp: role_allows_def)
    with admin assms(2) show ?thesis
      by (auto simp: get_all_requests_def allowed_rows_def)
  next
    case logistic
    with assms(2) have "role_allows db u = (\<lambda>r. status r = ''approved_by_chef'')"
      by (auto simp: role_allows_def)
    with logistic assms(2) show ?thesis
      by (simp add: get_all_requests_def allowed_rows_def)
  next
    case charoi
    with assms(2) have "role_allows db u = (\<lambda>r. status r = ''approved_by_logistic'')"
      by (auto simp: role_allows_def)
    with charoi assms(2) show ?thesis
      by (simp add: get_all_requests_def allowed_rows_def)
  next
    case chef
    show ?thesis
    proof (cases "service_id u")
      case None
      with chef assms(2) have "role_allows db u = (\<lambda>r. False)"
        by (auto simp: role_allows_def)
      with None chef assms(2) show ?thesis
        by (simp add: get_all_requests_def allowed_rows_def page_def newest_first_def)
    next
      case (Some sid)
      have "role_allows db u = requester_in_service db sid"
        using role_allows_chef [OF assms(1,2) chef Some] by blast
      with Some chef assms(2) show ?thesis
        by (simp add: get_all_requests_def allowed_rows_def)
    qed
  qed
qed

lemma sorted_neg_rev:
  "sorted (map (\<lambda>r. - f r) xs) \<Longrightarrow> sorted (rev (map f xs))" for f :: "'a \<Rightarrow> int"
  by (induction xs) (auto simp: sorted_append)

lemma sorted_newest_first: "sorted (rev (map created_at (newest_first rs)))"
  by (rule sorted_neg_rev) (simp add: newest_first_def)

lemma sorted_rev_take_drop:
  "sorted (rev (map f xs)) \<Longrightarrow> sorted (rev (map f (take n (drop k xs))))" for f :: "'a \<Rightarrow> int"
  by (metis drop_map sorted_wrt_drop sorted_wrt_rev sorted_wrt_take take_map)

lemma sorted_page: "sorted (rev (map created_at (page limit skip rs)))"
  unfolding page_def by (rule sorted_rev_take_drop) (rule sorted_newest_first)

lemma set_page_subset: "set (page limit skip rs) \<subseteq> set rs"
proof -
  have "set (take limit (drop skip (newest_first rs))) \<subseteq> set (newest_first rs)"
    by (meson set_take_subset set_drop_subset subset_trans)
  then show ?thesis
    by (simp add: page_def newest_first_def)
qed

lemma page_all:
  "length rs \<le> limit \<Longrightarrow> page limit 0 rs = newest_first rs"
  by (simp add: page_def newest_first_def)

section \<open>Facts about fuel records\<close>

lemma find_map_replace:
  "find (\<lambda>f. fuel_id f = fid) fs = Some old \<Longrightarrow> fuel_id new = fid \<Longrightarrow>
     find (\<lambda>f. fuel_id f = fid) (map (\<lambda>f. if fuel_id f = fid then new else f) fs) = Some new"
  by (induction fs) (auto split: if_splits)

lemma find_fuel_id: "find (\<lambda>f. fuel_id f = fid) fs = Some old \<Longrightarrow> fuel_id old = fid"
  by (induction fs) (auto split: if_splits)

lemma update_Some:
  assumes "get_fuel db fid = Some old"
  shows "update_existing_fuel_record ops db fid upd =
     (if (case u_vehicle_id upd of
            Some v \<Rightarrow> v \<noteq> fuel_vehicle_id old \<and> v \<notin> set (vehicle_ids db) | None \<Rightarrow> False)
      then (Inl NotFound, db)
      else if (case u_fuel_type_id upd of
            Some t \<Rightarrow> t \<noteq> fuel_type_id old \<and> t \<notin> set (fuel_type_ids db) | None \<Rightarrow> False)
      then (Inl NotFound, db)
      else if (case u_quantity upd of Some q \<Rightarrow> fle0 ops q | None \<Rightarrow> False)
      then (Inl BadRequest, db)
      else if (case u_price_little upd of Some p \<Rightarrow> fle0 ops p | None \<Rightarrow> False)
      then (Inl BadRequest, db)
      else (Inr (updated_row ops old upd),
            db\<lparr>fuels := map (\<lambda>f. if fuel_id f = fid then updated_row ops old upd else f)
                    (fuels db)\<rparr>))"
  unfolding update_existing_fuel_record_def updated_row_def Let_def
  by (simp only: assms option.case)

lemma updated_row_fields:
  "fuel_id (updated_row ops old upd) = fuel_id old"
  "quantity (updated_row ops old upd) =
     (case u_quantity upd of Some q \<Rightarrow> q | None \<Rightarrow> quantity old)"
  "price_little (updated_row ops old upd) =
     (case u_price_little upd of Some p \<Rightarrow> p | None \<Rightarrow> price_little old)"
  by (simp_all add: updated_row_def)

lemma updated_row_cost:
  "u_quantity upd \<noteq> None \<or> u_price_little upd \<noteq> None \<Longrightarrow>
     cost (updated_row ops old upd) =
       fround2 ops (fmul ops (quantity (updated_row ops old upd))
         (price_little (updated_row ops old upd)))"
  by (simp add: updated_row_def)

lemma update_route_success:
  assumes "update_existing_fuel_record_route ops db fid upd caller = (Inr row, db')"
  shows "update_existing_fuel_record ops db fid upd = (Inr row, db')"
  using assms
  by (cases "require_role_for_api [''admin'', ''superadmin''] caller")
    (simp_all add: update_existing_fuel_record_route_def)

lemma four_checks:
  assumes "(if a then (Inl x, d) else if b then (Inl y, d) else if c then (Inl z, d)
            else if e then (Inl w, d) else (Inr n, d')) = (Inr r, d'')"
  shows "\<not> a \<and> \<not> b \<and> \<not> c \<and> \<not> e \<and> r = n \<and> d'' = d'"
  using assms by (auto split: if_splits)

lemma updated_row_id: "fuel_id (updated_row ops old upd) = fuel_id old"
  by (simp add: updated_row_def)

lemma update_unfolded:
  assumes "get_fuel db fid = Some old"
    and "update_existing_fuel_record ops db fid upd = (Inr row, db')"
  shows "\<not> (case u_quantity upd of Some q \<Rightarrow> fle0 ops q | None \<Rightarrow> False)
     \<and> \<not> (case u_price_little upd of Some p \<Rightarrow> fle0 ops p | None \<Rightarrow> False)
     \<and> row = updated_row ops old upd
     \<and> db' = db\<lparr>fuels := map (\<lambda>f. if fuel_id f = fid then updated_row ops old upd else f)
                    (fuels db)\<rparr>"
proof -
  from assms(2) have "(if (case u_vehicle_id upd of
            Some v \<Rightarrow> v \<noteq> fuel_vehicle_id old \<and> v \<notin> set (vehicle_ids db) | None \<Rightarrow> False)
      then (Inl NotFound, db)
      else if (case u_fuel_type_id upd of
            Some t \<Rightarrow> t \<noteq> fuel_type_id old \<and> t \<notin> set (fuel_type_ids db) | None \<Rightarrow> False)
      then (Inl NotFound, db)
      else if (case u_quantity upd of Some q \<Rightarrow> fle0 ops q | None \<Rightarrow> False)
      then (Inl BadRequest, db)
      else if (case u_price_little upd of Some p \<Rightarrow> fle0 ops p | None \<Rightarrow> False)
      then (Inl BadRequest, db)
      else (Inr (updated_row ops old upd),
            db\<lparr>fuels := map (\<lambda>f. if fuel_id f = fid then updated_row ops old upd else f)
                    (fuels db)\<rparr>)) = (Inr row, db')"
    by (simp only: update_Some [OF assms(1)])
  from four_checks [OF this] show ?thesis
    by (simp only: simp_thms)
qed

lemma update_success:
  assumes "update_existing_fuel_record ops db fid upd = (Inr row, db')"
  obtains old where "get_fuel db fid = Some old" and "row = updated_row ops old upd"
    and "get_fuel db' fid = Some row"
    and "(case u_quantity upd of Some q \<Rightarrow> \<not> fle0 ops q | None \<Rightarrow> True)"
    and "(case u_price_little upd of Some p \<Rightarrow> \<not> fle0 ops p | None \<Rightarrow> True)"
proof (cases "get_fuel db fid")
  case None
  with assms have False
    by (simp add: update_existing_fuel_record_def)
  then show thesis ..
next
  case (Some old)
  note u = update_unfolded [OF Some assms]
  note q = u [THEN conjunct1]
    and p = u [THEN conjunct2, THEN conjunct1]
    and r = u [THEN conjunct2, THEN conjunct2, THEN conjunct1]
    and d = u [THEN conjunct2, THEN conjunct2, THEN conjunct2]
  have "fuel_id old = fid"
    using Some unfolding get_fuel_def by (rule find_fuel_id)
  with Some r d have g: "get_fuel db' fid = Some row"
    by (simp add: get_fuel_def find_map_replace updated_row_id)
  from q have q': "(case u_quantity upd of Some q \<Rightarrow> \<not> fle0 ops q | None \<Rightarrow> True)"
    by (cases "u_quantity upd") simp_all
  from p have p': "(case u_price_little upd of Some p \<Rightarrow> \<not> fle0 ops p | None \<Rightarrow> True)"
    by (cases "u_price_little upd") simp_all
  show thesis
    by (rule that [OF Some r g q' p'])
qed

lemmas fuel_eval = create_new_fuel_record_def update_existing_fuel_record_route_def
  update_existing_fuel_record_def require_role_for_api_def get_fuel_def Let_def

lemmas fuel_samples = whole_ops_def sample_fuel_def fuel_sample_db_def fuel_payload_def
  free_fuel_payload_def quantity_update_def

section \<open>Facts about reachable databases\<close>

lemma step_unique_submit:
  "step_unique db \<Longrightarrow> step_unique (snd (submit_approval_route db rid d u))"
  by (simp add: route_cases step_unique_decided split: option.splits)

lemma step_unique_create:
  "step_unique db \<Longrightarrow> step_unique (snd (create_request db request_data u new_id now))"
  by (simp add: step_unique_def create_request_def Let_def)

lemma step_unique_delete:
  "step_unique db \<Longrightarrow> step_unique (snd (delete_request db rid u))"
  by (auto simp: step_unique_def delete_request_def Let_def distinct_map_filter
      split: option.splits)

lemma reachable_step_unique: "reachable db \<Longrightarrow> step_unique db"
proof (induction rule: reachable.induct)
  case (start us)
  show ?case by (simp add: step_unique_def)
next
  case (created db request_data u new_id now)
  then show ?case by (simp add: step_unique_create)
next
  case (submitted db rid d u)
  then show ?case by (simp add: step_unique_submit)
next
  case (deleted db rid u)
  then show ?case by (simp add: step_unique_delete)
qed

lemma distinct_key_once:
  "distinct (map f xs) \<Longrightarrow> length (filter (\<lambda>a. f a = k) xs) \<le> 1"
proof (induction xs)
  case Nil
  show ?case by simp
next
  case (Cons x xs)
  show ?case
  proof (cases "f x = k")
    case True
    with Cons.prems have "\<forall>a\<in>set xs. f a \<noteq> k"
      by (auto simp: image_iff)
    then have "filter (\<lambda>a. f a = k) xs = []"
      by (simp add: filter_empty_conv)
    with True show ?thesis by simp
  next
    case False
    with Cons show ?thesis by simp
  qed
qed

lemma step_unique_rows:
  assumes "step_unique db"
  shows "length (rows_for db rid step) \<le> 1"
proof -
  have "length (filter (\<lambda>a. (request_id a, approval_step a) = (rid, step)) (approvals db)) \<le> 1"
    using assms unfolding step_unique_def by (rule distinct_key_once)
  then show ?thesis by (simp add: rows_for_def)
qed

section \<open>The approval workflow\<close>

text \<open>
  Claim C4. A successful call of the route whose decision is \<open>denied\<close> (in any
  capitalisation, as the handler lower-cases it) leaves the request with status
  \<open>denied\<close>, for every step and every earlier content of the approval table; the request
  is also the one returned.
\<close>

theorem denied_sets_status_denied:
  assumes "submit_approval_route db rid d u = (Inr res, db')"
    and "lower (decision d) = ''denied''"
  shows "\<exists>r. res = Some r \<and> get_request db' rid = Some r \<and> status r = ''denied''"
  using assms
  by (auto simp: route_cases get_request_decided status_after_def split: if_splits option.splits)

theorem denied_sets_status_denied_witness:
  "\<exists>r. get_request (snd (submit_approval_route sample_db 7 deny chef_user)) 7 = Some r
       \<and> status r = ''denied''"
proof -
  have run: "submit_approval_route sample_db 7 deny chef_user =
      (Inr (Some (sample_request\<lparr>status := ''denied''\<rparr>)),
       snd (submit_approval_route sample_db 7 deny chef_user))"
    by (simp add: route_eval lower_eval sample_defs)
  have den: "lower (decision deny) = ''denied''"
    by (simp add: lower_eval sample_defs)
  from denied_sets_status_denied [OF run den] show ?thesis
    by blast
qed

text \<open>
  Claim C1. In every database that the handlers produce from empty tables, a request has
  at most one approval row for each step, and a call of the route keeps the approval table
  free of two rows for the same request and step. A call for an existing request whose
  step already has a row fails with \<open>Conflict\<close> and returns the database as it was, so
  the recorded decision and the status of the request stay; in particular the call that
  follows a successful one for the same step, whoever makes it and whatever it decides.
\<close>

theorem step_decided_once:
  "(reachable db \<longrightarrow> length (rows_for db rid0 step0) \<le> 1)
   \<and> (step_unique db \<longrightarrow> step_unique (snd (submit_approval_route db rid d u)))
   \<and> (get_request db rid \<noteq> None \<and> caller_step u \<noteq> 0
        \<and> get_approval db rid (caller_step u) \<noteq> None
        \<longrightarrow> submit_approval_route db rid d u = (Inl Conflict, db))
   \<and> (submit_approval_route db rid d u = (Inr res, db1) \<and> caller_step u2 = caller_step u
        \<longrightarrow> submit_approval_route db1 rid d2 u2 = (Inl Conflict, db1))"
proof -
  have once: "length (rows_for db rid0 step0) \<le> 1" if "reachable db"
    using that by (intro step_unique_rows reachable_step_unique)
  have kept: "step_unique (snd (submit_approval_route db rid d u))" if "step_unique db"
    using that by (rule step_unique_submit)
  have conflict: "submit_approval_route db rid d u = (Inl Conflict, db)"
    if "get_request db rid \<noteq> None \<and> caller_step u \<noteq> 0
        \<and> get_approval db rid (caller_step u) \<noteq> None"
    using that by (auto simp: route_cases)
  have again: "submit_approval_route db1 rid d2 u2 = (Inl Conflict, db1)"
    if "submit_approval_route db rid d u = (Inr res, db1) \<and> caller_step u2 = caller_step u"
    using that conflict_after_success by blast
  from once kept conflict again show ?thesis
    by blast
qed

theorem step_decided_once_witness:
  "length (rows_for decided_db 7 3) \<le> 1
   \<and> step_unique decided_db
   \<and> submit_approval_route decided_db 7 deny admin_user = (Inl Conflict, decided_db)"
proof -
  have made: "sample_db = snd (create_request empty_db
      \<lparr>rc_purpose = ''site visit'', rc_from_location = ''depot'', rc_to_location = ''port'',
       rc_roadmap = None, rc_departure_time = 100, rc_return_time = 200\<rparr> plain_user 7 50)"
    by (simp add: create_request_def Let_def sample_defs)
  have "reachable empty_db"
    unfolding empty_db_def by (rule reachable.start)
  then have "reachable sample_db"
    by (subst made) (rule reachable.created)
  then have reach: "reachable decided_db"
    unfolding decided_db_def by (rule reachable.submitted)
  have u0: "step_unique sample_db"
    by (simp add: step_unique_def sample_defs)
  have run: "submit_approval_route sample_db 7 approve charoi_user =
      (Inr (Some (sample_request\<lparr>status := ''fully_approved''\<rparr>)), decided_db)"
    by (simp add: decided_db_def route_eval lower_eval sample_defs)
  have same: "caller_step admin_user = caller_step charoi_user"
    by (simp add: caller_step_def approval_step_of_def admin_user_def lower_eval sample_defs)
  have fin: "snd (submit_approval_route sample_db 7 approve charoi_user) = decided_db"
    by (simp only: decided_db_def)
  from step_decided_once [where db = decided_db and ?rid0.0 = 7 and ?step0.0 = 3] reach
  have "length (rows_for decided_db 7 3) \<le> 1"
    by blast
  moreover note once = step_decided_once [where db = sample_db and rid = 7 and d = approve
      and u = charoi_user
      and res = "Some (sample_request\<lparr>status := ''fully_approved''\<rparr>)"
      and ?db1.0 = decided_db and ?u2.0 = admin_user and ?d2.0 = deny]
  from once u0 have "step_unique decided_db"
    by (simp only: fin)
  moreover from once run same
  have "submit_approval_route decided_db 7 deny admin_user = (Inl Conflict, decided_db)"
    by blast
  ultimately show ?thesis
    by blast
qed




text \<open>
  Claim C3. A request created under a fresh primary key has status \<open>pending\<close> and no
  approval rows; approving it as chef, then as logistic, then as charoi, admin or
  superadmin succeeds each time, and the status goes through \<open>approved_by_chef\<close>,
  \<open>approved_by_logistic\<close> and \<open>fully_approved\<close>, with one, two and three approval rows.
\<close>

theorem approval_chain:
  assumes fresh: "get_request db rid = None" "approvals_of db rid = []"
    and created: "create_request db request_data owner rid now = (r0, db0)"
    and chef: "role_name u1 = Some n1" "lower n1 = ''chef''"
    and logistic: "role_name u2 = Some n2" "lower n2 = ''logistic''"
    and final: "role_name u3 = Some n3" "lower n3 \<in> {''charoi'', ''admin'', ''superadmin''}"
    and approved: "lower (decision d1) = ''approved''" "lower (decision d2) = ''approved''"
      "lower (decision d3) = ''approved''"
  shows "status_of db0 rid = Some ''pending'' \<and> approvals_of db0 rid = []
    \<and> (\<exists>res1 db1 res2 db2 res3 db3.
          submit_approval_route db0 rid d1 u1 = (Inr res1, db1)
          \<and> status_of db1 rid = Some ''approved_by_chef''
          \<and> length (approvals_of db1 rid) = 1
          \<and> submit_approval_route db1 rid d2 u2 = (Inr res2, db2)
          \<and> status_of db2 rid = Some ''approved_by_logistic''
          \<and> length (approvals_of db2 rid) = 2
          \<and> submit_approval_route db2 rid d3 u3 = (Inr res3, db3)
          \<and> status_of db3 rid = Some ''fully_approved''
          \<and> length (approvals_of db3 rid) = 3)"
proof -
  have s1: "caller_step u1 = 1" and s2: "caller_step u2 = 2" and s3: "caller_step u3 = 3"
    using chef logistic final by (auto simp: caller_step_def approval_step_of_def)
  have r0: "get_request db0 rid = Some r0" and p0: "status r0 = ''pending''"
    and a0: "approvals_of db0 rid = []"
    using create_request_fresh [OF fresh(1) created] fresh(2)
    by (simp_all add: approvals_of_def)
  have none0: "get_approval db0 rid step = None" for step
    using a0 by (rule approvals_of_Nil_get_approval)
  obtain res1 db1 r1 where run1: "submit_approval_route db0 rid d1 u1 = (Inr res1, db1)"
    and r1: "get_request db1 rid = Some r1"
    and st1: "status r1 = status_after (status r0) (lower (decision d1)) (caller_step u1)"
    and ap1: "approvals_of db1 rid = approvals_of db0 rid @
       [\<lparr>request_id = rid, approver_id = Some (user_id u1), approval_step = caller_step u1,
         approval_status = lower (decision d1), comments = decision_comments d1\<rparr>]"
    and ot1: "\<And>step. step \<noteq> caller_step u1 \<Longrightarrow>
           get_approval db1 rid step = None \<longleftrightarrow> get_approval db0 rid step = None"
    using route_success_facts [OF r0, of u1 d1] none0 s1 by (metis zero_neq_one)
  have none1: "get_approval db1 rid (caller_step u2) = None"
    using ot1 [of "caller_step u2"] none0 s1 s2 by simp
  obtain res2 db2 r2 where run2: "submit_approval_route db1 rid d2 u2 = (Inr res2, db2)"
    and r2: "get_request db2 rid = Some r2"
    and st2: "status r2 = status_after (status r1) (lower (decision d2)) (caller_step u2)"
    and ap2: "approvals_of db2 rid = approvals_of db1 rid @
       [\<lparr>request_id = rid, approver_id = Some (user_id u2), approval_step = caller_step u2,
         approval_status = lower (decision d2), comments = decision_comments d2\<rparr>]"
    and ot2: "\<And>step. step \<noteq> caller_step u2 \<Longrightarrow>
           get_approval db2 rid step = None \<longleftrightarrow> get_approval db1 rid step = None"
    using route_success_facts [OF r1, of u2 d2] none1 s2 by (metis zero_neq_numeral)
  have none2: "get_approval db2 rid (caller_step u3) = None"
    using ot2 [of "caller_step u3"] ot1 [of "caller_step u3"] none0 s1 s2 s3 by simp
  obtain res3 db3 r3 where run3: "submit_approval_route db2 rid d3 u3 = (Inr res3, db3)"
    and r3: "get_request db3 rid = Some r3"
    and st3: "status r3 = status_after (status r2) (lower (decision d3)) (caller_step u3)"
    and ap3: "approvals_of db3 rid = approvals_of db2 rid @
       [\<lparr>request_id = rid, approver_id = Some (user_id u3), approval_step = caller_step u3,
         approval_status = lower (decision d3), comments = decision_comments d3\<rparr>]"
    using route_success_facts [OF r2, of u3 d3] none2 s3 by (metis zero_neq_numeral)
  have "status_of db0 rid = Some ''pending''"
    using r0 p0 by (simp add: status_of_def)
  moreover have "status_of db1 rid = Some ''approved_by_chef''"
    using r1 st1 s1 approved by (simp add: status_of_def status_after_def)
  moreover have "status_of db2 rid = Some ''approved_by_logistic''"
    using r2 st2 s2 approved by (simp add: status_of_def status_after_def)
  moreover have "status_of db3 rid = Some ''fully_approved''"
    using r3 st3 s3 approved by (simp add: status_of_def status_after_def)
  moreover have "length (approvals_of db1 rid) = 1" "length (approvals_of db2 rid) = 2"
      "length (approvals_of db3 rid) = 3"
    using a0 ap1 ap2 ap3 by simp_all
  ultimately show ?thesis
    using a0 run1 run2 run3 by blast
qed

theorem approval_chain_witness:
  "status_of created_db 7 = Some ''pending'' \<and> approvals_of created_db 7 = []
    \<and> (\<exists>res1 db1 res2 db2 res3 db3.
          submit_approval_route created_db 7 approve chef_user = (Inr res1, db1)
          \<and> status_of db1 7 = Some ''approved_by_chef''
          \<and> length (approvals_of db1 7) = 1
          \<and> submit_approval_route db1 7 approve logistic_user = (Inr res2, db2)
          \<and> status_of db2 7 = Some ''approved_by_logistic''
          \<and> length (approvals_of db2 7) = 2
          \<and> submit_approval_route db2 7 approve admin_user = (Inr res3, db3)
          \<and> status_of db3 7 = Some ''fully_approved''
          \<and> length (approvals_of db3 7) = 3)"
proof -
  have fresh: "get_request empty_db 7 = None" "approvals_of empty_db 7 = []"
    by (simp_all add: get_request_def approvals_of_def sample_defs)
  have created: "create_request empty_db sample_create plain_user 7 50 =
      (fst (create_request empty_db sample_create plain_user 7 50), created_db)"
    by (simp add: created_db_def)
  have roles: "role_name chef_user = Some ''Chef''" "lower ''Chef'' = ''chef''"
      "role_name logistic_user = Some ''logistic''" "lower ''logistic'' = ''logistic''"
      "role_name admin_user = Some ''ADMIN''"
      "lower ''ADMIN'' \<in> {''charoi'', ''admin'', ''superadmin''}"
    by (simp_all add: admin_user_def lower_eval sample_defs)
  have approved: "lower (decision approve) = ''approved''"
    by (simp add: lower_eval sample_defs)
  from approval_chain [OF fresh created roles approved approved approved]
  show ?thesis .
qed

text \<open>
  Claim C5, as the code has it. The handler has no check of the status of the request, so
  \<open>denied\<close> is not final: here a chef denies request 7 and a logistic caller then approves
  it, which replaces \<open>denied\<close> by \<open>approved_by_logistic\<close>.
\<close>

theorem denied_overwritten_counterexample:
  "status_of denied_db 7 = Some ''denied''
   \<and> get_approval denied_db 7 2 = None
   \<and> status_of (snd (submit_approval_route denied_db 7 approve logistic_user)) 7
        = Some ''approved_by_logistic''"
  by (simp add: status_of_def denied_db_def route_eval lower_eval sample_defs)

text \<open>
  Claim C5, amended. When the status of a request is \<open>denied\<close>, a later call either fails
  and changes nothing, or succeeds; a successful call whose decision is \<open>approved\<close> sets the
  status of its own step, and a successful call with any other decision leaves \<open>denied\<close>.
\<close>

theorem status_after_denial:
  assumes "get_request db rid = Some r" and "status r = ''denied''"
  shows "case submit_approval_route db rid d u of
           (Inl e, db') \<Rightarrow> db' = db
         | (Inr res, db') \<Rightarrow>
             status_of db' rid =
               Some (if lower (decision d) = ''approved'' then
                       (if caller_step u = 1 then ''approved_by_chef''
                        else if caller_step u = 2 then ''approved_by_logistic''
                        else ''fully_approved'')
                     else ''denied'')"
proof -
  have "caller_step u \<in> {0, 1, 2, 3}"
    by (cases "role_name u") (simp_all add: caller_step_def approval_step_of_def)
  with assms show ?thesis
    by (auto simp: route_cases status_of_decided status_after_def)
qed

theorem status_after_denial_witness:
  "submit_approval_route denied_db 7 approve chef_user = (Inl Conflict, denied_db)
   \<and> status_of (snd (submit_approval_route denied_db 7 deny logistic_user)) 7 = Some ''denied''
   \<and> status_of (snd (submit_approval_route denied_db 7 approve charoi_user)) 7
        = Some ''fully_approved''"
proof -
  have r: "get_request denied_db 7 = Some (sample_request\<lparr>status := ''denied''\<rparr>)"
    by (simp add: denied_db_def route_eval lower_eval sample_defs)
  have s: "status (sample_request\<lparr>status := ''denied''\<rparr>) = ''denied''"
    by simp
  note after = status_after_denial [OF r s]
  have c: "fst (submit_approval_route denied_db 7 approve chef_user) = Inl Conflict"
    by (simp add: denied_db_def route_eval lower_eval sample_defs)
  have l: "\<exists>res. fst (submit_approval_route denied_db 7 deny logistic_user) = Inr res"
    by (simp add: denied_db_def route_eval lower_eval sample_defs)
  have h: "\<exists>res. fst (submit_approval_route denied_db 7 approve charoi_user) = Inr res"
    by (simp add: denied_db_def route_eval lower_eval sample_defs)
  have steps: "caller_step charoi_user = 3" "lower (decision approve) = ''approved''"
      "lower (decision deny) = ''denied''"
    by (simp_all add: caller_step_def approval_step_of_def lower_eval sample_defs)
  from after [where d = approve and u = chef_user] c
  have 1: "submit_approval_route denied_db 7 approve chef_user = (Inl Conflict, denied_db)"
    by (cases "submit_approval_route denied_db 7 approve chef_user") auto
  from after [where d = deny and u = logistic_user] l steps
  have 2: "status_of (snd (submit_approval_route denied_db 7 deny logistic_user)) 7 = Some ''denied''"
    by (cases "submit_approval_route denied_db 7 deny logistic_user") auto
  from after [where d = approve and u = charoi_user] h steps
  have 3: "status_of (snd (submit_approval_route denied_db 7 approve charoi_user)) 7
        = Some ''fully_approved''"
    by (cases "submit_approval_route denied_db 7 approve charoi_user") auto
  from 1 2 3 show ?thesis by blast
qed

text \<open>
  Claim C6, as the code has it. The role gate of the route runs before the function's
  body, so a caller whose role is not an approving role gets \<open>Forbidden\<close> also for a
  request that does not exist, not \<open>NotFound\<close>.
\<close>

theorem not_found_after_gate_counterexample:
  "get_request empty_db 7 = None
   \<and> submit_approval_route empty_db 7 approve plain_user = (Inl Forbidden, empty_db)
   \<and> fst (submit_approval_route empty_db 7 approve plain_user) \<noteq> Inl NotFound"
  by (simp add: route_eval lower_eval sample_defs)

text \<open>
  Claim C6, amended. A caller whose lower-cased role is none of chef, logistic, charoi,
  admin and superadmin (or who has no role) fails with \<open>Forbidden\<close> and nothing is
  recorded, whether the request exists or not; a caller with one of these roles who names
  a request that does not exist fails with \<open>NotFound\<close>; and the row recorded by a
  successful call has step 1 for chef, 2 for logistic and 3 for charoi, admin and
  superadmin.
\<close>

theorem approval_step_by_role:
  "((\<forall>rn. role_name u = Some rn
        \<longrightarrow> lower rn \<notin> {''chef'', ''logistic'', ''charoi'', ''admin'', ''superadmin''})
      \<longrightarrow> submit_approval_route db rid d u = (Inl Forbidden, db))
   \<and> (\<forall>rn. role_name u = Some rn
          \<and> lower rn \<in> {''chef'', ''logistic'', ''charoi'', ''admin'', ''superadmin''}
          \<and> get_request db rid = None
        \<longrightarrow> submit_approval_route db rid d u = (Inl NotFound, db))
   \<and> (\<forall>rn res db'. role_name u = Some rn
          \<and> submit_approval_route db rid d u = (Inr res, db')
        \<longrightarrow> lower rn \<in> {''chef'', ''logistic'', ''charoi'', ''admin'', ''superadmin''}
            \<and> (\<exists>a. approvals db' = approvals db @ [a]
                 \<and> approval_step a =
                     (if lower rn = ''chef'' then 1
                      else if lower rn = ''logistic'' then 2 else 3)))"
proof (intro conjI allI impI)
  assume "\<forall>rn. role_name u = Some rn
        \<longrightarrow> lower rn \<notin> {''chef'', ''logistic'', ''charoi'', ''admin'', ''superadmin''}"
  then have "caller_step u = 0"
    by (cases "role_name u") (simp_all add: caller_step_def approval_step_of_def)
  then show "submit_approval_route db rid d u = (Inl Forbidden, db)"
    by (simp add: route_cases)
next
  fix rn
  assume a: "role_name u = Some rn
          \<and> lower rn \<in> {''chef'', ''logistic'', ''charoi'', ''admin'', ''superadmin''}
          \<and> get_request db rid = None"
  then have "caller_step u \<noteq> 0"
    by (auto simp: caller_step_def approval_step_of_def)
  with a show "submit_approval_route db rid d u = (Inl NotFound, db)"
    by (simp add: route_cases)
next
  fix rn res db'
  assume a: "role_name u = Some rn \<and> submit_approval_route db rid d u = (Inr res, db')"
  then have s: "caller_step u \<noteq> 0" "caller_step u = approval_step_of (lower rn)"
    by (auto simp: route_cases caller_step_def split: if_splits)
  then show "lower rn \<in> {''chef'', ''logistic'', ''charoi'', ''admin'', ''superadmin''}"
    by (auto simp: approval_step_of_def split: if_splits)
next
  fix rn res db'
  assume a: "role_name u = Some rn \<and> submit_approval_route db rid d u = (Inr res, db')"
  then have s: "caller_step u \<noteq> 0" "caller_step u = approval_step_of (lower rn)"
    by (auto simp: route_cases caller_step_def split: if_splits)
  from a obtain old where "db' = decided db rid old d u"
    by (auto simp: route_cases split: if_splits option.splits)
  then have "approvals db' = approvals db @
      [\<lparr>request_id = rid, approver_id = Some (user_id u), approval_step = caller_step u,
        approval_status = lower (decision d), comments = decision_comments d\<rparr>]"
    by (simp add: decided_def)
  moreover from s have "caller_step u =
      (if lower rn = ''chef'' then 1 else if lower rn = ''logistic'' then 2 else 3)"
    by (auto simp: approval_step_of_def split: if_splits)
  ultimately show "\<exists>a. approvals db' = approvals db @ [a]
      \<and> approval_step a =
          (if lower rn = ''chef'' then 1 else if lower rn = ''logistic'' then 2 else 3)"
    by simp
qed

theorem approval_step_by_role_witness:
  "submit_approval_route sample_db 7 approve plain_user = (Inl Forbidden, sample_db)
   \<and> submit_approval_route sample_db 9 approve admin_user = (Inl NotFound, sample_db)
   \<and> (\<exists>a. approvals decided_db = approvals sample_db @ [a] \<and> approval_step a = 3)"
proof -
  note by_role = approval_step_by_role [where db = sample_db and d = approve]
  have p: "\<forall>rn. role_name plain_user = Some rn
      \<longrightarrow> lower rn \<notin> {''chef'', ''logistic'', ''charoi'', ''admin'', ''superadmin''}"
    by (simp add: lower_eval sample_defs)
  have a: "role_name admin_user = Some ''ADMIN''
      \<and> lower ''ADMIN'' \<in> {''chef'', ''logistic'', ''charoi'', ''admin'', ''superadmin''}
      \<and> get_request sample_db 9 = None"
    by (simp add: get_request_def admin_user_def lower_eval sample_defs)
  have c: "role_name charoi_user = Some ''charoi''
      \<and> submit_approval_route sample_db 7 approve charoi_user =
          (Inr (Some (sample_request\<lparr>status := ''fully_approved''\<rparr>)), decided_db)"
    by (simp add: decided_db_def route_eval lower_eval sample_defs)
  have l: "lower ''charoi'' = ''charoi''"
    by (simp add: lower_eval)
  from by_role [where u = plain_user and rid = 7] p
  have 1: "submit_approval_route sample_db 7 approve plain_user = (Inl Forbidden, sample_db)"
    by blast
  from by_role [where u = admin_user and rid = 9] a
  have 2: "submit_approval_route sample_db 9 approve admin_user = (Inl NotFound, sample_db)"
    by blast
  from by_role [where u = charoi_user and rid = 7] c
  have "\<exists>a. approvals decided_db = approvals sample_db @ [a]
      \<and> approval_step a =
          (if lower ''charoi'' = ''chef'' then 1 else if lower ''charoi'' = ''logistic'' then 2 else 3)"
    by blast
  then have 3: "\<exists>a. approvals decided_db = approvals sample_db @ [a] \<and> approval_step a = 3"
    by (simp add: l)
  from 1 2 3 show ?thesis by blast
qed

text \<open>
  Claim C7. For an existing request and a caller with an approving role, the call
  succeeds exactly when the caller's own step has no approval row yet; rows of other steps,
  present or absent, play no part. In particular it succeeds for step 2 or 3 on a request
  without any approval row.
\<close>

theorem no_step_ordering:
  assumes "get_request db rid = Some r" and "caller_step u \<noteq> 0"
  shows "((\<exists>res db'. submit_approval_route db rid d u = (Inr res, db'))
           \<longleftrightarrow> get_approval db rid (caller_step u) = None)
         \<and> (approvals_of db rid = []
              \<longrightarrow> (\<exists>res db'. submit_approval_route db rid d u = (Inr res, db')))"
  using assms by (auto simp: route_cases approvals_of_Nil_get_approval)

theorem no_step_ordering_witness:
  "approvals_of sample_db 7 = []
   \<and> caller_step logistic_user = 2
   \<and> status_of (snd (submit_approval_route sample_db 7 approve logistic_user)) 7
        = Some ''approved_by_logistic''
   \<and> (\<exists>res db'. submit_approval_route sample_db 7 approve logistic_user = (Inr res, db'))"
proof -
  have r: "get_request sample_db 7 = Some sample_request"
    by (simp add: get_request_def sample_defs)
  have s: "caller_step logistic_user = 2"
    by (simp add: caller_step_def approval_step_of_def lower_eval sample_defs)
  then have s0: "caller_step logistic_user \<noteq> 0"
    by simp
  have e: "approvals_of sample_db 7 = []"
    by (simp add: approvals_of_def sample_defs)
  have st: "status_of (snd (submit_approval_route sample_db 7 approve logistic_user)) 7
        = Some ''approved_by_logistic''"
    by (simp add: status_of_def route_eval lower_eval sample_defs)
  from no_step_ordering [OF r s0, of approve] e s st show ?thesis
    by blast
qed

section \<open>Listing and deleting requests\<close>

text \<open>
  Claim C8, as the code has it. The listing returns one page of the allowed rows: with
  \<open>limit = 1\<close> an admin gets the newer of two requests and not the older, which the role
  allows too.
\<close>

theorem list_requests_truncated_counterexample:
  "sample_request \<in> set (requests listing_db)
   \<and> role_allows listing_db admin_user sample_request
   \<and> get_all_requests_route listing_db admin_user 1 0 = Inr [newer_request]
   \<and> sample_request \<noteq> newer_request"
  by (simp add: listing_eval role_allows_def listing_db_def newer_request_def admin_user_def
      lower_eval sample_defs)

text \<open>
  Claim C8, amended. For a caller whose lower-cased role is admin, superadmin, chef,
  logistic or charoi, the listing returns the page (\<open>skip\<close> rows left out, at most
  \<open>limit\<close> rows) of the rows that the role allows, newest first: only allowed rows, in
  descending order of \<open>created_at\<close>, and all of them when \<open>skip = 0\<close> and no more than
  \<open>limit\<close> rows are allowed. A chef without service gets the empty list. The rows
  allowed are those of \<open>role_allows\<close>, which agrees with the handler's join as user ids
  are unique.
\<close>

theorem list_requests_page_by_role:
  assumes "user_ids_unique db" and "role_name u = Some rn"
    and "lower rn \<in> {''admin'', ''superadmin'', ''chef'', ''logistic'', ''charoi''}"
  shows "\<exists>rows. get_all_requests_route db u limit skip = Inr rows
     \<and> rows = take limit (drop skip (newest_first (allowed_rows db u)))
     \<and> set rows \<subseteq> set (allowed_rows db u)
     \<and> sorted (rev (map created_at rows))
     \<and> (skip = 0 \<and> length (allowed_rows db u) \<le> limit
          \<longrightarrow> set rows = set (allowed_rows db u) \<and> length rows = length (allowed_rows db u))
     \<and> (lower rn = ''chef'' \<and> service_id u = None \<longrightarrow> rows = [])"
proof -
  have l: "lower rn \<in> set listing_roles"
    using assms(3) by (auto simp: listing_roles_def)
  have route: "get_all_requests_route db u limit skip = Inr (page limit skip (allowed_rows db u))"
    using assms(2) l
    by (simp add: get_all_requests_route_def require_role_listing
        get_all_requests_allowed [OF assms(1,2) l])
  have all: "set (page limit 0 (allowed_rows db u)) = set (allowed_rows db u)
      \<and> length (page limit 0 (allowed_rows db u)) = length (allowed_rows db u)"
    if "length (allowed_rows db u) \<le> limit"
    using that by (simp add: page_all newest_first_def)
  have none: "page limit skip (allowed_rows db u) = []"
    if "lower rn = ''chef''" "service_id u = None"
  proof -
    from that assms(2) have "role_allows db u = (\<lambda>r. False)"
      by (auto simp: role_allows_def)
    then show ?thesis
      by (simp add: allowed_rows_def page_def newest_first_def)
  qed
  show ?thesis
    using route all none set_page_subset [of limit skip "allowed_rows db u"]
      sorted_page [of limit skip "allowed_rows db u"]
    by (auto simp: page_def)
qed

theorem list_requests_page_by_role_witness:
  "get_all_requests_route listing_db chef_user 100 0 = Inr [sample_request]"
proof -
  have uniq: "user_ids_unique listing_db"
    by (simp add: user_ids_unique_def listing_db_def sample_defs)
  have role: "role_name chef_user = Some ''Chef''"
    by (simp add: sample_defs)
  have low: "lower ''Chef'' \<in> {''admin'', ''superadmin'', ''chef'', ''logistic'', ''charoi''}"
    by (simp add: lower_eval)
  have rows: "allowed_rows listing_db chef_user = [sample_request]"
    by (simp add: allowed_rows_def role_allows_def requester_of_def listing_db_def
        newer_request_def lower_eval sample_defs)
  from list_requests_page_by_role [OF uniq role low, of 100 0]
  show ?thesis
    by (simp add: rows newest_first_def)
qed

text \<open>
  Claim C9. For a caller with a role: a request that does not exist gives \<open>NotFound\<close>;
  an existing request is deleted, with its approval rows, when the caller's lower-cased
  role is admin or superadmin, whatever the status, or when the caller is the requester
  and the status is \<open>pending\<close>; in every other case the call fails with \<open>Forbidden\<close>
  and returns the database as it was. The handler lower-cases the stored status, which
  changes nothing for the lower-case values of the status column.
\<close>

theorem delete_request_authorization:
  assumes "role_name u = Some rn"
  shows "(get_request db rid = None \<longrightarrow> delete_request db rid u = (Inl NotFound, db))
    \<and> (\<forall>r. get_request db rid = Some r \<longrightarrow>
          (if lower rn \<in> {''admin'', ''superadmin''}
               \<or> (requester_id r = Some (user_id u) \<and> lower (status r) = ''pending'')
           then \<exists>db'. delete_request db rid u = (Inr (), db')
                  \<and> get_request db' rid = None \<and> approvals_of db' rid = []
                  \<and> requests db' = filter (\<lambda>x. req_id x \<noteq> rid) (requests db)
           else delete_request db rid u = (Inl Forbidden, db)))"
proof (cases "get_request db rid")
  case None
  with assms show ?thesis
    by (simp add: delete_request_def)
next
  case (Some r)
  let ?db' = "db\<lparr>requests := filter (\<lambda>x. req_id x \<noteq> rid) (requests db),
                   approvals := filter (\<lambda>a. request_id a \<noteq> rid) (approvals db)\<rparr>"
  have gone: "get_request ?db' rid = None" "approvals_of ?db' rid = []"
    by (simp_all add: get_request_def approvals_of_def find_None_iff_all filter_empty_conv)
  show ?thesis
  proof (cases "lower rn \<in> {''admin'', ''superadmin''}
      \<or> (requester_id r = Some (user_id u) \<and> lower (status r) = ''pending'')")
    case True
    with Some assms have "delete_request db rid u = (Inr (), ?db')"
      by (auto simp: delete_request_def)
    with True Some gone show ?thesis
      by simp
  next
    case False
    with Some assms have "delete_request db rid u = (Inl Forbidden, db)"
      by (auto simp: delete_request_def)
    with False Some show ?thesis
      by simp
  qed
qed

theorem delete_request_authorization_witness:
  "delete_request sample_db 9 admin_user = (Inl NotFound, sample_db)
   \<and> fst (delete_request decided_db 7 admin_user) = Inr ()
   \<and> get_request (snd (delete_request decided_db 7 admin_user)) 7 = None
   \<and> fst (delete_request sample_db 7 plain_user) = Inr ()
   \<and> delete_request approved_db 7 plain_user = (Inl Forbidden, approved_db)
   \<and> delete_request sample_db 7 chef_user = (Inl Forbidden, sample_db)"
proof -
  have roles: "role_name admin_user = Some ''ADMIN''" "role_name plain_user = Some ''user''"
      "role_name chef_user = Some ''Chef''"
    by (simp_all add: admin_user_def sample_defs)
  have low: "lower ''ADMIN'' = ''admin''" "lower ''user'' = ''user''" "lower ''Chef'' = ''chef''"
      "lower ''pending'' = ''pending''" "lower ''fully_approved'' = ''fully_approved''"
      "lower ''approved_by_chef'' = ''approved_by_chef''"
    by (simp_all add: lower_eval)
  have reqs: "get_request sample_db 9 = None" "get_request sample_db 7 = Some sample_request"
      "get_request decided_db 7 = Some (sample_request\<lparr>status := ''fully_approved''\<rparr>)"
      "get_request approved_db 7 = Some (sample_request\<lparr>status := ''approved_by_chef''\<rparr>)"
    by (simp_all add: decided_db_def approved_db_def route_eval lower_eval sample_defs)
  have ids: "requester_id sample_request = Some (user_id plain_user)"
      "requester_id sample_request \<noteq> Some (user_id chef_user)"
      "status sample_request = ''pending''"
    by (simp_all add: sample_defs)
  note auth = delete_request_authorization
  from auth [OF roles(1), of sample_db 9] reqs
  have 1: "delete_request sample_db 9 admin_user = (Inl NotFound, sample_db)"
    by simp
  from auth [OF roles(1), of decided_db 7] reqs low
  have 2: "fst (delete_request decided_db 7 admin_user) = Inr ()
      \<and> get_request (snd (delete_request decided_db 7 admin_user)) 7 = None"
    by auto
  from auth [OF roles(2), of sample_db 7] reqs low ids
  have 3: "fst (delete_request sample_db 7 plain_user) = Inr ()"
    by auto
  from auth [OF roles(2), of approved_db 7] reqs low ids
  have 4: "delete_request approved_db 7 plain_user = (Inl Forbidden, approved_db)"
    by simp
  from auth [OF roles(3), of sample_db 7] reqs low ids
  have 5: "delete_request sample_db 7 chef_user = (Inl Forbidden, sample_db)"
    by simp
  from 1 2 3 4 5 show ?thesis by blast
qed

section \<open>The cost of a fuel record\<close>

text \<open>
  Claim C10. The stored cost is computed by the server. A successful create stores
  \<open>round(quantity * price_little, 2)\<close> of the submitted quantity and price, neither of
  which is zero or less; when vehicle and fuel type exist, a quantity or price of zero or
  less is rejected with \<open>BadRequest\<close> and nothing is stored. After a successful update
  that gives a quantity or a price, the stored cost is \<open>round\<close> of the effective quantity
  times the effective price, the given value where one is given and the stored one
  otherwise, also when the request carries a cost of its own. Product, rounding and
  comparison are the parameters \<open>ops\<close>.
\<close>

theorem fuel_cost_server_derived:
  "(create_new_fuel_record ops db payload new_id now = (Inr row, db')
      \<longrightarrow> cost row = fround2 ops (fmul ops (p_quantity payload) (p_price_little payload))
          \<and> quantity row = p_quantity payload \<and> price_little row = p_price_little payload
          \<and> fuels db' = fuels db @ [row]
          \<and> \<not> fle0 ops (p_quantity payload) \<and> \<not> fle0 ops (p_price_little payload))
   \<and> (p_vehicle_id payload \<in> set (vehicle_ids db)
        \<and> p_fuel_type_id payload \<in> set (fuel_type_ids db)
        \<and> (fle0 ops (p_quantity payload) \<or> fle0 ops (p_price_little payload))
      \<longrightarrow> create_new_fuel_record ops db payload new_id now = (Inl BadRequest, db))
   \<and> (update_existing_fuel_record_route ops db fid upd caller = (Inr row2, db2)
        \<and> (u_quantity upd \<noteq> None \<or> u_price_little upd \<noteq> None)
      \<longrightarrow> (\<exists>old. get_fuel db fid = Some old
            \<and> quantity row2 = (case u_quantity upd of Some q \<Rightarrow> q | None \<Rightarrow> quantity old)
            \<and> price_little row2 =
                (case u_price_little upd of Some p \<Rightarrow> p | None \<Rightarrow> price_little old)
            \<and> cost row2 = fround2 ops (fmul ops (quantity row2) (price_little row2))
            \<and> get_fuel db2 fid = Some row2))"
proof -
  have created: "cost row = fround2 ops (fmul ops (p_quantity payload) (p_price_little payload))
          \<and> quantity row = p_quantity payload \<and> price_little row = p_price_little payload
          \<and> fuels db' = fuels db @ [row]
          \<and> \<not> fle0 ops (p_quantity payload) \<and> \<not> fle0 ops (p_price_little payload)"
    if "create_new_fuel_record ops db payload new_id now = (Inr row, db')"
    using that by (auto simp: create_new_fuel_record_def Let_def split: if_splits)
  have rejected: "create_new_fuel_record ops db payload new_id now = (Inl BadRequest, db)"
    if "p_vehicle_id payload \<in> set (vehicle_ids db)
        \<and> p_fuel_type_id payload \<in> set (fuel_type_ids db)
        \<and> (fle0 ops (p_quantity payload) \<or> fle0 ops (p_price_little payload))"
    using that by (auto simp: create_new_fuel_record_def)
  have updated: "\<exists>old. get_fuel db fid = Some old
            \<and> quantity row2 = (case u_quantity upd of Some q \<Rightarrow> q | None \<Rightarrow> quantity old)
            \<and> price_little row2 =
                (case u_price_little upd of Some p \<Rightarrow> p | None \<Rightarrow> price_little old)
            \<and> cost row2 = fround2 ops (fmul ops (quantity row2) (price_little row2))
            \<and> get_fuel db2 fid = Some row2"
    if a: "update_existing_fuel_record_route ops db fid upd caller = (Inr row2, db2)
        \<and> (u_quantity upd \<noteq> None \<or> u_price_little upd \<noteq> None)"
  proof -
    from a have "update_existing_fuel_record ops db fid upd = (Inr row2, db2)"
      using update_route_success by blast
    then obtain old where old: "get_fuel db fid = Some old" "row2 = updated_row ops old upd"
        "get_fuel db2 fid = Some row2"
      by (rule update_success)
    from a have "cost (updated_row ops old upd) =
        fround2 ops (fmul ops (quantity (updated_row ops old upd))
          (price_little (updated_row ops old upd)))"
      by (simp add: updated_row_cost)
    with old show ?thesis
      by (simp add: updated_row_fields)
  qed
  from created rejected updated show ?thesis
    by blast
qed

theorem fuel_cost_server_derived_witness:
  "(\<exists>row db'. create_new_fuel_record whole_ops fuel_sample_db fuel_payload 2 80 = (Inr row, db')
        \<and> cost row = 100)
   \<and> create_new_fuel_record whole_ops fuel_sample_db free_fuel_payload 2 80
        = (Inl BadRequest, fuel_sample_db)
   \<and> (\<exists>row db'. update_existing_fuel_record_route whole_ops fuel_sample_db 1 quantity_update
          admin_user = (Inr row, db') \<and> cost row = 150)"
proof -
  note derived = fuel_cost_server_derived [where ops = whole_ops and db = fuel_sample_db]
  have "\<exists>row. fst (create_new_fuel_record whole_ops fuel_sample_db fuel_payload 2 80) = Inr row"
    by (simp add: fuel_eval fuel_samples)
  then obtain row db1 where
    row: "create_new_fuel_record whole_ops fuel_sample_db fuel_payload 2 80 = (Inr row, db1)"
    by (metis prod.collapse)
  from derived [where payload = fuel_payload and new_id = 2 and now = 80 and row = row and db' = db1] row
  have "cost row = fround2 whole_ops (fmul whole_ops (p_quantity fuel_payload) (p_price_little fuel_payload))"
    by blast
  then have "cost row = 100"
    by (simp add: fuel_samples)
  with row have 1: "\<exists>row db'. create_new_fuel_record whole_ops fuel_sample_db fuel_payload 2 80
      = (Inr row, db') \<and> cost row = 100"
    by blast
  have bad: "p_vehicle_id free_fuel_payload \<in> set (vehicle_ids fuel_sample_db)
      \<and> p_fuel_type_id free_fuel_payload \<in> set (fuel_type_ids fuel_sample_db)
      \<and> (fle0 whole_ops (p_quantity free_fuel_payload)
          \<or> fle0 whole_ops (p_price_little free_fuel_payload))"
    by (simp add: fuel_samples)
  from derived [where payload = free_fuel_payload and new_id = 2 and now = 80] bad
  have 2: "create_new_fuel_record whole_ops fuel_sample_db free_fuel_payload 2 80
        = (Inl BadRequest, fuel_sample_db)"
    by blast
  have "\<exists>row2. fst (update_existing_fuel_record_route whole_ops fuel_sample_db 1
      quantity_update admin_user) = Inr row2"
    by (simp add: fuel_eval fuel_samples admin_user_def lower_eval)
  then obtain row2 db2 where row2: "update_existing_fuel_record_route whole_ops fuel_sample_db 1
      quantity_update admin_user = (Inr row2, db2)"
    by (metis prod.collapse)
  have given: "u_quantity quantity_update \<noteq> None"
    by (simp add: fuel_samples)
  have old: "get_fuel fuel_sample_db 1 = Some sample_fuel"
    by (simp add: get_fuel_def fuel_samples)
  from derived [where fid = 1 and upd = quantity_update and caller = admin_user and ?row2.0 = row2
      and ?db2.0 = db2]
    row2 given old
  have "cost row2 = fround2 whole_ops (fmul whole_ops (quantity row2) (price_little row2))
      \<and> quantity row2 = 50 \<and> price_little row2 = 3"
    by (auto simp: fuel_samples)
  then have "cost row2 = 150"
    by (simp add: fuel_samples)
  with row2 have 3: "\<exists>row db'. update_existing_fuel_record_route whole_ops fuel_sample_db 1
      quantity_update admin_user = (Inr row, db') \<and> cost row = 150"
    by blast
  from 1 2 3 show ?thesis by blast
qed

end
